theory Spec2Isabelle
  imports Main "HOL-Library.Word"
begin

unbundle bit_operations_syntax

section \<open>The execution context and its status register\<close>

text \<open>
  The interrupt functions of \<^verbatim>\<open>rtos_interrupt.h\<close> read and write the status register
  of the calling hardware thread through the XS1 instructions \<^verbatim>\<open>getsr\<close>, \<^verbatim>\<open>clrsr\<close> and
  \<^verbatim>\<open>setsr\<close>. The context is a record whose one named field is the status register;
  the record is extensible, so the \<open>more\<close> part stands for everything else the thread
  owns (memory, the other registers).
\<close>

type_synonym uint32_t = "32 word"

record xcore_context =
  sr :: uint32_t

text \<open>
  \<^verbatim>\<open>getsr r11, bits\<close> loads the status register masked with \<open>bits\<close> into r11,
  \<^verbatim>\<open>clrsr bits\<close> clears those bits of the status register and \<^verbatim>\<open>setsr bits\<close> sets them.
\<close>

definition getsr :: "uint32_t \<Rightarrow> 'a xcore_context_scheme \<Rightarrow> uint32_t" where
  "getsr bits s = sr s AND bits"

definition clrsr :: "uint32_t \<Rightarrow> 'a xcore_context_scheme \<Rightarrow> 'a xcore_context_scheme" where
  "clrsr bits s = s\<lparr>sr := sr s AND NOT bits\<rparr>"

definition setsr :: "uint32_t \<Rightarrow> 'a xcore_context_scheme \<Rightarrow> 'a xcore_context_scheme" where
  "setsr bits s = s\<lparr>sr := sr s OR bits\<rparr>"

section \<open>The interrupt mask functions\<close>

text \<open>
  The masks \<^verbatim>\<open>XS1_SR_IEBLE_MASK\<close> and \<^verbatim>\<open>XS1_SR_INK_MASK\<close> come from the toolchain header
  \<^verbatim>\<open>xs1.h\<close>, which is not among the sources: every function takes the mask it uses as its
  first argument (\<open>ieble_mask\<close>, \<open>ink_mask\<close>). In each \<^verbatim>\<open>asm\<close> block r11 is a declared
  clobber, a scratch register of the block, and is a local binding here. A function that
  returns a value returns it paired with the context it leaves.
\<close>

definition rtos_interrupt_mask_get ::
  "uint32_t \<Rightarrow> 'a xcore_context_scheme \<Rightarrow> uint32_t \<times> 'a xcore_context_scheme" where
  "rtos_interrupt_mask_get ieble_mask s =
     (let r11 = getsr ieble_mask s;
          mask = r11
      in (mask, s))"

definition rtos_interrupt_mask_all ::
  "uint32_t \<Rightarrow> 'a xcore_context_scheme \<Rightarrow> uint32_t \<times> 'a xcore_context_scheme" where
  "rtos_interrupt_mask_all ieble_mask s =
     (let r11 = getsr ieble_mask s;
          mask = r11;
          s' = clrsr ieble_mask s
      in (mask, s'))"

definition rtos_interrupt_unmask_all ::
  "uint32_t \<Rightarrow> 'a xcore_context_scheme \<Rightarrow> 'a xcore_context_scheme" where
  "rtos_interrupt_unmask_all ieble_mask s = setsr ieble_mask s"

definition rtos_interrupt_mask_set ::
  "uint32_t \<Rightarrow> uint32_t \<Rightarrow> 'a xcore_context_scheme \<Rightarrow> 'a xcore_context_scheme" where
  "rtos_interrupt_mask_set ieble_mask mask' s =
     (if mask' \<noteq> 0 then rtos_interrupt_unmask_all ieble_mask s else s)"

definition rtos_isr_running ::
  "uint32_t \<Rightarrow> 'a xcore_context_scheme \<Rightarrow> uint32_t \<times> 'a xcore_context_scheme" where
  "rtos_isr_running ink_mask s =
     (let r11 = getsr ink_mask s;
          kernel_mode = r11
      in (kernel_mode, s))"

text \<open>Interrupts are enabled when the mask that \<^verbatim>\<open>rtos_interrupt_mask_get\<close> reads is non-zero.\<close>

definition interrupts_enabled :: "uint32_t \<Rightarrow> 'a xcore_context_scheme \<Rightarrow> bool" where
  "interrupts_enabled ieble_mask s \<longleftrightarrow> fst (rtos_interrupt_mask_get ieble_mask s) \<noteq> 0"

section \<open>Sequences of mask operations\<close>

text \<open>
  A caller's use of the interface: single calls, and the critical section
  \<^verbatim>\<open>saved = rtos_interrupt_mask_all(); body; rtos_interrupt_mask_set(saved);\<close>
  whose body is again a sequence of such operations. Every \<^verbatim>\<open>rtos_interrupt_mask_all\<close>
  of a sequence is thus one whose result is saved and passed to the matching
  \<^verbatim>\<open>rtos_interrupt_mask_set\<close>.
\<close>

datatype mask_op =
    Mask_Get
  | Unmask_All
  | Mask_Set uint32_t
  | Critical_Section "mask_op list"

fun run_op :: "uint32_t \<Rightarrow> mask_op \<Rightarrow> 'a xcore_context_scheme \<Rightarrow> 'a xcore_context_scheme"
  and run_ops :: "uint32_t \<Rightarrow> mask_op list \<Rightarrow> 'a xcore_context_scheme \<Rightarrow> 'a xcore_context_scheme"
  where
  "run_op m Mask_Get s = snd (rtos_interrupt_mask_get m s)"
| "run_op m Unmask_All s = rtos_interrupt_unmask_all m s"
| "run_op m (Mask_Set v) s = rtos_interrupt_mask_set m v s"
| "run_op m (Critical_Section body) s =
     (let (saved, s1) = rtos_interrupt_mask_all m s;
          s2 = run_ops m body s1
      in rtos_interrupt_mask_set m saved s2)"
| "run_ops m [] s = s"
| "run_ops m (x # xs) s = run_ops m xs (run_op m x s)"

text \<open>A sequence is quiet when nothing in it, at any depth, enables interrupts by itself:
  no \<^verbatim>\<open>rtos_interrupt_unmask_all\<close> and no \<^verbatim>\<open>rtos_interrupt_mask_set\<close> of a non-zero constant.\<close>

fun quiet_op :: "mask_op \<Rightarrow> bool" and quiet_ops :: "mask_op list \<Rightarrow> bool" where
  "quiet_op Mask_Get = True"
| "quiet_op Unmask_All = False"
| "quiet_op (Mask_Set v) = (v = 0)"
| "quiet_op (Critical_Section body) = quiet_ops body"
| "quiet_ops [] = True"
| "quiet_ops (x # xs) = (quiet_op x \<and> quiet_ops xs)"

section \<open>The peripheral hub interface\<close>

text \<open>The constants of \<^verbatim>\<open>soc_peripheral_hub.h\<close>.\<close>

definition SOC_PERIPHERAL_CHANNEL_COUNT :: nat where
  "SOC_PERIPHERAL_CHANNEL_COUNT = 3"

definition SOC_PERIPHERAL_FROM_DMA_CH :: nat where
  "SOC_PERIPHERAL_FROM_DMA_CH = 0"

definition SOC_PERIPHERAL_TO_DMA_CH :: nat where
  "SOC_PERIPHERAL_TO_DMA_CH = 1"

definition SOC_PERIPHERAL_CONTROL_CH :: nat where
  "SOC_PERIPHERAL_CONTROL_CH = 2"

definition SOC_PERIPHERAL_ISR_DMA_RX_DONE_BM :: uint32_t where
  "SOC_PERIPHERAL_ISR_DMA_RX_DONE_BM = 0x00000001"

definition SOC_PERIPHERAL_ISR_DMA_TX_DONE_BM :: uint32_t where
  "SOC_PERIPHERAL_ISR_DMA_TX_DONE_BM = 0x00000002"

text \<open>The device enumerations of \<^verbatim>\<open>bitstream_devices.h\<close>: each \<^verbatim>\<open>enum\<close> counts from 0 and
  its last enumerator is the number of devices of the kind.\<close>

definition BITSTREAM_MICARRAY_DEVICE_A :: nat where
  "BITSTREAM_MICARRAY_DEVICE_A = 0"

definition BITSTREAM_MICARRAY_DEVICE_COUNT :: nat where
  "BITSTREAM_MICARRAY_DEVICE_COUNT = 1"

definition BITSTREAM_ETHERNET_DEVICE_A :: nat where
  "BITSTREAM_ETHERNET_DEVICE_A = 0"

definition BITSTREAM_ETHERNET_DEVICE_COUNT :: nat where
  "BITSTREAM_ETHERNET_DEVICE_COUNT = 1"

definition BITSTREAM_I2S_DEVICE_A :: nat where
  "BITSTREAM_I2S_DEVICE_A = 0"

definition BITSTREAM_I2S_DEVICE_COUNT :: nat where
  "BITSTREAM_I2S_DEVICE_COUNT = 1"

definition BITSTREAM_I2C_DEVICE_A :: nat where
  "BITSTREAM_I2C_DEVICE_A = 0"

definition BITSTREAM_I2C_DEVICE_COUNT :: nat where
  "BITSTREAM_I2C_DEVICE_COUNT = 1"

definition BITSTREAM_GPIO_DEVICE_A :: nat where
  "BITSTREAM_GPIO_DEVICE_A = 0"

definition BITSTREAM_GPIO_DEVICE_B :: nat where
  "BITSTREAM_GPIO_DEVICE_B = 1"

definition BITSTREAM_GPIO_DEVICE_COUNT :: nat where
  "BITSTREAM_GPIO_DEVICE_COUNT = 2"

subsection \<open>The registration table\<close>

type_synonym chanend = "32 word"

text \<open>The channel triple \<^verbatim>\<open>chanend c[SOC_PERIPHERAL_CHANNEL_COUNT]\<close>, in the order of the
  channel indices: from DMA, to DMA, control.\<close>

type_synonym channel_triple = "chanend \<times> chanend \<times> chanend"

text \<open>
  Modelled from the spec: \<^verbatim>\<open>struct soc_peripheral\<close> is only declared in
  \<^verbatim>\<open>soc_peripheral_hub.h\<close>; its fields are not among the sources. The registration record
  of the spec binds a handle to its channel triple, the application context pointer
  (empty until a handler is registered) and the interrupt status bitmask.
\<close>

record soc_peripheral =
  channels :: channel_triple
  app_data :: "nat option"
  interrupt_status :: uint32_t

text \<open>
  Modelled from the spec: the record that registration allocates stores the channel triple;
  no handler has been registered and no completion is pending.
\<close>

definition new_peripheral :: "channel_triple \<Rightarrow> soc_peripheral" where
  "new_peripheral c = \<lparr>channels = c, app_data = None, interrupt_status = 0\<rparr>"

text \<open>A handle \<^verbatim>\<open>soc_peripheral_t\<close> is the position of its record in the table; the null handle
  is \<open>None\<close>. The handles in use are the positions of the table.\<close>

type_synonym soc_peripheral_t = "nat option"

definition handles :: "soc_peripheral list \<Rightarrow> nat set" where
  "handles table = {0 ..< length table}"

text \<open>
  Modelled from the spec: the body of \<^verbatim>\<open>soc_peripheral_register\<close> is not among the sources
  (only its declaration is). Following the spec, it allocates a new registration record,
  stores the channel triple and returns a fresh handle, and it fails with the null handle
  when the fixed capacity of the table is exhausted. The capacity is a constant of the
  board, the first argument here.
\<close>

definition soc_peripheral_register ::
  "nat \<Rightarrow> channel_triple \<Rightarrow> soc_peripheral list \<Rightarrow> soc_peripheral_t \<times> soc_peripheral list" where
  "soc_peripheral_register capacity c table =
     (if length table < capacity
      then (Some (length table), table @ [new_peripheral c])
      else (None, table))"

subsection \<open>Interrupt status\<close>

text \<open>
  Modelled from the spec: the bodies of the hub and of \<^verbatim>\<open>soc_peripheral_interrupt_status\<close>
  are not among the sources. Following the spec, the hub sets the bit of a completed
  transfer in the peripheral's interrupt status bitmask, and
  \<^verbatim>\<open>soc_peripheral_interrupt_status\<close> reads the pending bits (whether the read also clears
  them is left open by the spec and is not modelled).
\<close>

definition hub_dma_rx_done :: "soc_peripheral \<Rightarrow> soc_peripheral" where
  "hub_dma_rx_done device =
     device\<lparr>interrupt_status := interrupt_status device OR SOC_PERIPHERAL_ISR_DMA_RX_DONE_BM\<rparr>"

definition hub_dma_tx_done :: "soc_peripheral \<Rightarrow> soc_peripheral" where
  "hub_dma_tx_done device =
     device\<lparr>interrupt_status := interrupt_status device OR SOC_PERIPHERAL_ISR_DMA_TX_DONE_BM\<rparr>"

definition soc_peripheral_interrupt_status :: "soc_peripheral \<Rightarrow> uint32_t" where
  "soc_peripheral_interrupt_status device = interrupt_status device"

subsection \<open>Receive transfer\<close>

text \<open>
  Modelled from the spec: the body of \<^verbatim>\<open>soc_peripheral_rx_dma_xfer\<close> is not among the
  sources (only its declaration is). Following the spec, it transfers at most
  \<open>max_length\<close> bytes of the data pending on the channel and returns the transferred
  length, 0 when nothing is pending; data beyond \<open>max_length\<close> stays pending for a later
  call. The channel \<open>c\<close> is the list of bytes pending on it; \<open>data\<close> is the memory at
  the buffer pointer, by byte offset. The result is the returned length, the buffer and
  the channel after the call.
\<close>

definition soc_peripheral_rx_dma_xfer ::
  "8 word list \<Rightarrow> (nat \<Rightarrow> 8 word) \<Rightarrow> 16 word
     \<Rightarrow> 16 word \<times> (nat \<Rightarrow> 8 word) \<times> 8 word list" where
  "soc_peripheral_rx_dma_xfer c data max_length =
     (let n = min (length c) (unat max_length);
          received = take n c
      in (word_of_nat n, (\<lambda>i. if i < n then received ! i else data i), drop n c))"

section \<open>Basic facts about the status register\<close>

lemma sr_mask_get [simp]: "snd (rtos_interrupt_mask_get m s) = s"
  by (simp add: rtos_interrupt_mask_get_def)

lemma fst_mask_get: "fst (rtos_interrupt_mask_get m s) = sr s AND m"
  by (simp add: rtos_interrupt_mask_get_def getsr_def)

lemma fst_mask_all: "fst (rtos_interrupt_mask_all m s) = sr s AND m"
  by (simp add: rtos_interrupt_mask_all_def getsr_def)

lemma snd_mask_all: "snd (rtos_interrupt_mask_all m s) = s\<lparr>sr := sr s AND NOT m\<rparr>"
  by (simp add: rtos_interrupt_mask_all_def clrsr_def)

lemma unmask_all_eq: "rtos_interrupt_unmask_all m s = s\<lparr>sr := sr s OR m\<rparr>"
  by (simp add: rtos_interrupt_unmask_all_def setsr_def)

lemma word_clear_then_read: "(w AND NOT m) AND m = (0 :: uint32_t)"
  by (simp add: bit_eq_iff bit_simps)

lemma word_set_then_read: "(w OR m) AND m = (m :: uint32_t)"
  by (auto simp add: bit_eq_iff bit_simps)

lemma word_clear_outside: "(w AND NOT m) AND NOT m = (w :: uint32_t) AND NOT m"
  by (auto simp add: bit_eq_iff bit_simps)

lemma word_set_outside: "(w OR m) AND NOT m = (w :: uint32_t) AND NOT m"
  by (auto simp add: bit_eq_iff bit_simps)

lemma word_disjoint_clear:
  "k AND m = 0 \<Longrightarrow> (w AND NOT m) AND k = (w :: uint32_t) AND k"
proof -
  assume d: "k AND m = 0"
  have "\<not> (bit k n \<and> bit m n)" for n
  proof -
    have "bit (k AND m) n = bit (0 :: uint32_t) n" using d by simp
    then show ?thesis by (simp add: bit_simps)
  qed
  then show ?thesis by (auto simp add: bit_eq_iff bit_simps)
qed

lemma word_disjoint_set:
  "k AND m = 0 \<Longrightarrow> (w OR m) AND k = (w :: uint32_t) AND k"
proof -
  assume d: "k AND m = 0"
  have "\<not> (bit k n \<and> bit m n)" for n
  proof -
    have "bit (k AND m) n = bit (0 :: uint32_t) n" using d by simp
    then show ?thesis by (simp add: bit_simps)
  qed
  then show ?thesis by (auto simp add: bit_eq_iff bit_simps)
qed

lemma enabled_iff: "interrupts_enabled m s \<longleftrightarrow> sr s AND m \<noteq> 0"
  by (simp add: interrupts_enabled_def fst_mask_get)

section \<open>Properties of the interrupt mask functions\<close>

text \<open>
  C3: from every starting state, \<^verbatim>\<open>rtos_interrupt_mask_all\<close> leaves all interrupts of the
  calling context disabled, so that a following \<^verbatim>\<open>rtos_interrupt_mask_get\<close> returns zero,
  and it returns exactly the mask that \<^verbatim>\<open>rtos_interrupt_mask_get\<close> would have returned
  just before the call.
\<close>

theorem mask_all_disables_and_returns_previous:
  "fst (rtos_interrupt_mask_get m (snd (rtos_interrupt_mask_all m s))) = 0
   \<and> fst (rtos_interrupt_mask_all m s) = fst (rtos_interrupt_mask_get m s)"
  by (simp add: fst_mask_get fst_mask_all snd_mask_all word_clear_then_read)

text \<open>
  C7: from every starting state, whether interrupts were enabled or disabled,
  \<^verbatim>\<open>rtos_interrupt_unmask_all\<close> leaves interrupts enabled: the following
  \<^verbatim>\<open>rtos_interrupt_mask_get\<close> returns a non-zero value (the enable mask itself, which is
  a non-zero constant of the architecture).
\<close>

theorem unmask_all_enables:
  assumes "ieble_mask \<noteq> 0"
  shows "fst (rtos_interrupt_mask_get ieble_mask (rtos_interrupt_unmask_all ieble_mask s)) \<noteq> 0"
  using assms by (simp add: fst_mask_get unmask_all_eq word_set_then_read)

theorem unmask_all_enables_witness:
  "(2 :: uint32_t) \<noteq> 0
   \<and> fst (rtos_interrupt_mask_get 2 (rtos_interrupt_unmask_all 2 \<lparr>sr = 0\<rparr>)) \<noteq> 0
   \<and> fst (rtos_interrupt_mask_get 2 (rtos_interrupt_unmask_all 2 \<lparr>sr = 2\<rparr>)) \<noteq> 0"
proof -
  have nz: "(2 :: uint32_t) \<noteq> 0" by simp
  show ?thesis
    using nz unmask_all_enables [OF nz, of "\<lparr>sr = 0\<rparr>"] unmask_all_enables [OF nz, of "\<lparr>sr = 2\<rparr>"]
    by simp
qed

text \<open>
  C2: for every argument, \<^verbatim>\<open>rtos_interrupt_mask_set\<close> of a non-zero value enables
  interrupts and is the same as \<^verbatim>\<open>rtos_interrupt_unmask_all\<close>, whichever bits the value
  has; \<^verbatim>\<open>rtos_interrupt_mask_set(0)\<close> changes nothing, so it never disables interrupts.
\<close>

theorem mask_set_nonzero_enables_zero_is_noop:
  assumes "ieble_mask \<noteq> 0"
  shows "(v \<noteq> 0 \<longrightarrow>
            rtos_interrupt_mask_set ieble_mask v s = rtos_interrupt_unmask_all ieble_mask s
          \<and> interrupts_enabled ieble_mask (rtos_interrupt_mask_set ieble_mask v s))
       \<and> rtos_interrupt_mask_set ieble_mask 0 s = s
       \<and> (interrupts_enabled ieble_mask s \<longrightarrow>
            interrupts_enabled ieble_mask (rtos_interrupt_mask_set ieble_mask 0 s))"
  using assms
  by (simp add: rtos_interrupt_mask_set_def enabled_iff unmask_all_eq word_set_then_read)

theorem mask_set_nonzero_enables_zero_is_noop_witness:
  "(2 :: uint32_t) \<noteq> 0
   \<and> rtos_interrupt_mask_set 2 0x80000000 \<lparr>sr = 0\<rparr> = rtos_interrupt_unmask_all 2 \<lparr>sr = 0\<rparr>
   \<and> interrupts_enabled 2 (rtos_interrupt_mask_set 2 0x80000000 \<lparr>sr = 0\<rparr>)
   \<and> rtos_interrupt_mask_set 2 0 \<lparr>sr = 2\<rparr> = \<lparr>sr = 2\<rparr>
   \<and> interrupts_enabled 2 (rtos_interrupt_mask_set 2 0 \<lparr>sr = 2\<rparr>)"
proof -
  have nz: "(2 :: uint32_t) \<noteq> 0" by simp
  have en: "interrupts_enabled 2 \<lparr>sr = 2\<rparr>" by (simp add: enabled_iff)
  show ?thesis
    using nz en
      mask_set_nonzero_enables_zero_is_noop [OF nz, of "0x80000000" "\<lparr>sr = 0\<rparr>"]
      mask_set_nonzero_enables_zero_is_noop [OF nz, of 0 "\<lparr>sr = 2\<rparr>"]
    by (simp add: enabled_iff unmask_all_eq)
qed

text \<open>
  C8: \<^verbatim>\<open>rtos_interrupt_mask_get\<close> has no side effect. It leaves the whole context as it
  was, the status register and everything else, and returns the enable bits of the status
  register: with the enable mask being status bit \<open>k\<close>, the result is non-zero exactly
  when that bit is set, that is, when interrupts are enabled.
\<close>

theorem mask_get_reads_without_effect:
  assumes "ieble_mask = push_bit k 1"
  shows "snd (rtos_interrupt_mask_get ieble_mask s) = s
       \<and> fst (rtos_interrupt_mask_get ieble_mask s) = sr s AND ieble_mask
       \<and> (fst (rtos_interrupt_mask_get ieble_mask s) \<noteq> 0 \<longleftrightarrow> bit (sr s) k)"
  using assms by (simp add: fst_mask_get bit_iff_and_push_bit_not_eq_0)

theorem mask_get_reads_without_effect_witness:
  "(2 :: uint32_t) = push_bit 1 1
   \<and> snd (rtos_interrupt_mask_get 2 \<lparr>sr = 0x12\<rparr>) = \<lparr>sr = 0x12\<rparr>
   \<and> fst (rtos_interrupt_mask_get 2 \<lparr>sr = 0x12\<rparr>) = 2
   \<and> bit (0x12 :: uint32_t) 1"
proof -
  have pb: "(2 :: uint32_t) = push_bit 1 1" by simp
  show ?thesis
    using pb mask_get_reads_without_effect [OF pb, of "\<lparr>sr = 0x12\<rparr>"]
    by (simp add: fst_mask_get)
qed

text \<open>
  C6: \<^verbatim>\<open>rtos_isr_running\<close> returns a non-zero value exactly when the context is in
  kernel mode, the INK bit \<open>k\<close> of its status register being set, and the interrupt mask
  has no part in the result: two contexts that agree on kernel mode get the same truth
  value whatever their masks are, and, the INK and enable bits being different bits, the
  value returned is the same before and after \<^verbatim>\<open>rtos_interrupt_mask_all\<close>,
  \<^verbatim>\<open>rtos_interrupt_unmask_all\<close> and \<^verbatim>\<open>rtos_interrupt_mask_set\<close>.
\<close>

theorem isr_running_iff_kernel_mode:
  fixes s s' :: "'a xcore_context_scheme"
  assumes "ink_mask = push_bit k 1" and "ink_mask AND ieble_mask = 0"
  shows "(fst (rtos_isr_running ink_mask s) \<noteq> 0 \<longleftrightarrow> bit (sr s) k)
       \<and> (bit (sr s') k = bit (sr s) k \<longrightarrow>
            (fst (rtos_isr_running ink_mask s') \<noteq> 0) = (fst (rtos_isr_running ink_mask s) \<noteq> 0))
       \<and> fst (rtos_isr_running ink_mask (snd (rtos_interrupt_mask_all ieble_mask s)))
            = fst (rtos_isr_running ink_mask s)
       \<and> fst (rtos_isr_running ink_mask (rtos_interrupt_unmask_all ieble_mask s))
            = fst (rtos_isr_running ink_mask s)
       \<and> fst (rtos_isr_running ink_mask (rtos_interrupt_mask_set ieble_mask v s))
            = fst (rtos_isr_running ink_mask s)"
proof -
  have running: "fst (rtos_isr_running b c) = sr c AND b"
    for b and c :: "'a xcore_context_scheme"
    by (simp add: rtos_isr_running_def getsr_def)
  have kernel: "(fst (rtos_isr_running ink_mask c) \<noteq> 0) = bit (sr c) k"
    for c :: "'a xcore_context_scheme"
    unfolding running assms(1) by (simp only: bit_iff_and_push_bit_not_eq_0)
  have after_clear: "fst (rtos_isr_running ink_mask (snd (rtos_interrupt_mask_all ieble_mask s)))
      = fst (rtos_isr_running ink_mask s)"
    using assms(2) by (simp add: running snd_mask_all word_disjoint_clear)
  have after_set: "fst (rtos_isr_running ink_mask (rtos_interrupt_unmask_all ieble_mask s))
      = fst (rtos_isr_running ink_mask s)"
    using assms(2) by (simp add: running unmask_all_eq word_disjoint_set)
  have after_restore: "fst (rtos_isr_running ink_mask (rtos_interrupt_mask_set ieble_mask v s))
      = fst (rtos_isr_running ink_mask s)"
    using after_set by (simp add: rtos_interrupt_mask_set_def)
  show ?thesis
    using kernel [of s] kernel [of s'] after_clear after_set after_restore by simp
qed

theorem isr_running_iff_kernel_mode_witness:
  "(0x10 :: uint32_t) = push_bit 4 1 \<and> (0x10 :: uint32_t) AND 2 = 0
   \<and> fst (rtos_isr_running 0x10 \<lparr>sr = 0x12\<rparr>) \<noteq> 0 \<and> bit (0x12 :: uint32_t) 4
   \<and> bit (sr \<lparr>sr = 0x10\<rparr>) 4 = bit (sr \<lparr>sr = 0x12\<rparr>) 4
   \<and> (fst (rtos_isr_running 0x10 \<lparr>sr = 0x10\<rparr>) \<noteq> 0)
        = (fst (rtos_isr_running 0x10 \<lparr>sr = 0x12\<rparr>) \<noteq> 0)
   \<and> fst (rtos_isr_running 0x10 (snd (rtos_interrupt_mask_all 2 \<lparr>sr = 0x12\<rparr>))) = 0x10"
proof -
  have pb: "(0x10 :: uint32_t) = push_bit 4 1" by simp
  have dj: "(0x10 :: uint32_t) AND 2 = 0" by simp
  have b: "bit (0x12 :: uint32_t) 4" "bit (0x10 :: uint32_t) 4"
    by (simp_all add: bit_iff_and_push_bit_not_eq_0)
  have r: "fst (rtos_isr_running 0x10 \<lparr>sr = 0x12\<rparr>) = 0x10"
    by (simp add: rtos_isr_running_def getsr_def)
  show ?thesis
    using pb dj b r
      isr_running_iff_kernel_mode [OF pb dj, of "\<lparr>sr = 0x12\<rparr>" "\<lparr>sr = 0x10\<rparr>" 1]
    by simp
qed

text \<open>
  C10: each of the four mask operations changes at most the enable bits of the status
  register. From every starting state the status register outside the enable mask and
  the rest of the context are the same before and after, and so is what
  \<^verbatim>\<open>rtos_isr_running\<close> reads from the INK bits, which are not enable bits.
\<close>

theorem mask_ops_touch_only_ieble:
  assumes "s' = snd (rtos_interrupt_mask_get ieble_mask s)
         \<or> s' = snd (rtos_interrupt_mask_all ieble_mask s)
         \<or> s' = rtos_interrupt_unmask_all ieble_mask s
         \<or> s' = rtos_interrupt_mask_set ieble_mask v s"
  shows "sr s' AND NOT ieble_mask = sr s AND NOT ieble_mask
       \<and> xcore_context.more s' = xcore_context.more s
       \<and> (ink_mask AND ieble_mask = 0 \<longrightarrow>
            fst (rtos_isr_running ink_mask s') = fst (rtos_isr_running ink_mask s))"
proof -
  have running: "fst (rtos_isr_running ink_mask c) = sr c AND ink_mask"
    for c :: "'a xcore_context_scheme"
    by (simp add: rtos_isr_running_def getsr_def)
  from assms consider
      (get) "s' = s"
    | (clear) "s' = s\<lparr>sr := sr s AND NOT ieble_mask\<rparr>"
    | (set) "s' = s\<lparr>sr := sr s OR ieble_mask\<rparr>"
    by (auto simp add: snd_mask_all unmask_all_eq rtos_interrupt_mask_set_def split: if_splits)
  then show ?thesis
  proof cases
    case get
    then show ?thesis by simp
  next
    case clear
    then show ?thesis by (simp add: running word_clear_outside word_disjoint_clear)
  next
    case set
    then show ?thesis by (simp add: running word_set_outside word_disjoint_set)
  qed
qed

theorem mask_ops_touch_only_ieble_witness:
  "sr (snd (rtos_interrupt_mask_all 2 \<lparr>sr = 0x12\<rparr>)) AND NOT 2 = 0x12 AND NOT 2
   \<and> (0x10 :: uint32_t) AND 2 = 0
   \<and> fst (rtos_isr_running 0x10 (snd (rtos_interrupt_mask_all 2 \<lparr>sr = 0x12\<rparr>)))
        = fst (rtos_isr_running 0x10 \<lparr>sr = 0x12\<rparr>)
   \<and> sr (rtos_interrupt_mask_set 2 1 \<lparr>sr = 0x10\<rparr>) AND NOT 2 = 0x10 AND NOT 2"
proof -
  have dj: "(0x10 :: uint32_t) AND 2 = 0" by simp
  show ?thesis
    using dj
      mask_ops_touch_only_ieble [of "snd (rtos_interrupt_mask_all 2 \<lparr>sr = 0x12\<rparr>)" 2
        "\<lparr>sr = 0x12\<rparr>" 0 "0x10"]
      mask_ops_touch_only_ieble [of "rtos_interrupt_mask_set 2 1 \<lparr>sr = 0x10\<rparr>" 2
        "\<lparr>sr = 0x10\<rparr>" 1 "0x10"]
    by simp
qed

section \<open>Critical sections\<close>

lemma run_critical_section:
  "run_op m (Critical_Section body) s =
     rtos_interrupt_mask_set m (sr s AND m) (run_ops m body (s\<lparr>sr := sr s AND NOT m\<rparr>))"
  by (simp add: rtos_interrupt_mask_all_def getsr_def clrsr_def)

lemma masked_after_mask_all:
  "\<not> interrupts_enabled m (snd (rtos_interrupt_mask_all m s))"
  by (simp add: enabled_iff snd_mask_all word_clear_then_read)

text \<open>What a critical section leaves: interrupts are enabled after the restoring
  \<^verbatim>\<open>rtos_interrupt_mask_set\<close> when they were enabled on entry or when the body left them
  enabled.\<close>

lemma critical_section_enabled_iff:
  "interrupts_enabled m (run_op m (Critical_Section body) s) \<longleftrightarrow>
     interrupts_enabled m s
     \<or> interrupts_enabled m (run_ops m body (snd (rtos_interrupt_mask_all m s)))"
proof (cases "interrupts_enabled m s")
  case True
  then have nz: "sr s AND m \<noteq> 0" by (simp add: enabled_iff)
  then have "m \<noteq> 0" by auto
  then show ?thesis
    using True nz unfolding run_critical_section
    by (simp add: rtos_interrupt_mask_set_def unmask_all_eq enabled_iff word_set_then_read)
next
  case False
  then have z: "sr s AND m = 0" by (simp add: enabled_iff)
  then show ?thesis
    using False unfolding run_critical_section
    by (simp add: rtos_interrupt_mask_set_def snd_mask_all)
qed

lemma quiet_keeps_masked:
  fixes s :: "'a xcore_context_scheme"
  shows "quiet_op x \<Longrightarrow> \<not> interrupts_enabled m s \<Longrightarrow> \<not> interrupts_enabled m (run_op m x s)"
    and "quiet_ops xs \<Longrightarrow> \<not> interrupts_enabled m s \<Longrightarrow> \<not> interrupts_enabled m (run_ops m xs s)"
proof (induction m x s and m xs s rule: run_op_run_ops.induct)
  case (4 m body s)
  have saved: "fst (rtos_interrupt_mask_all m s) = 0"
    using "4.prems"(2) by (simp add: fst_mask_all enabled_iff)
  have body: "quiet_ops body"
    using "4.prems"(1) by simp
  have "\<not> interrupts_enabled m (run_ops m body (snd (rtos_interrupt_mask_all m s)))"
    by (rule "4.IH" [OF refl prod.collapse body masked_after_mask_all])
  then show ?case
    using saved by (simp add: case_prod_beta rtos_interrupt_mask_set_def)
qed (simp_all add: rtos_interrupt_mask_set_def)

text \<open>A critical section with a quiet body reproduces the state it was entered in.\<close>

lemma quiet_critical_section_restores:
  "quiet_ops body \<Longrightarrow>
     interrupts_enabled m (run_op m (Critical_Section body) s) = interrupts_enabled m s"
  using quiet_keeps_masked(2) [OF _ masked_after_mask_all, of body m s]
  by (simp only: critical_section_enabled_iff) blast

text \<open>
  C1, as stated, fails: entered with interrupts disabled, a critical section whose body
  calls \<^verbatim>\<open>rtos_interrupt_unmask_all\<close> ends with interrupts enabled, since the restoring
  \<^verbatim>\<open>rtos_interrupt_mask_set(0)\<close> does nothing.
\<close>

theorem critical_section_unmask_counterexample:
  "fst (rtos_interrupt_mask_get 2 (run_op 2 (Critical_Section [Unmask_All]) \<lparr>sr = 0\<rparr>))
     \<noteq> fst (rtos_interrupt_mask_get 2 \<lparr>sr = 0\<rparr>)"
  unfolding run_critical_section
  by (simp add: rtos_interrupt_mask_set_def unmask_all_eq fst_mask_get)

text \<open>
  C1, amended: after \<^verbatim>\<open>saved = rtos_interrupt_mask_all(); body; rtos_interrupt_mask_set(saved)\<close>
  the enabled/disabled state read by \<^verbatim>\<open>rtos_interrupt_mask_get\<close> is the one in effect
  just before the \<^verbatim>\<open>rtos_interrupt_mask_all\<close>, whatever the body does, provided that
  interrupts were enabled before the call or that the body leaves them disabled.
\<close>

theorem critical_section_restores:
  assumes "interrupts_enabled m s
         \<or> \<not> interrupts_enabled m (run_ops m body (snd (rtos_interrupt_mask_all m s)))"
  shows "interrupts_enabled m (run_op m (Critical_Section body) s) = interrupts_enabled m s"
  using assms by (simp only: critical_section_enabled_iff) blast

theorem critical_section_restores_witness:
  "interrupts_enabled 2 \<lparr>sr = 2\<rparr>
   \<and> interrupts_enabled 2 (run_op 2 (Critical_Section [Unmask_All, Mask_Set 0]) \<lparr>sr = 2\<rparr>)
   \<and> \<not> interrupts_enabled 2
         (run_ops 2 [Mask_Get, Critical_Section [Mask_Set 0]]
            (snd (rtos_interrupt_mask_all 2 \<lparr>sr = 0x10\<rparr>)))
   \<and> \<not> interrupts_enabled 2
         (run_op 2 (Critical_Section [Mask_Get, Critical_Section [Mask_Set 0]]) \<lparr>sr = 0x10\<rparr>)"
proof -
  have on: "interrupts_enabled 2 \<lparr>sr = 2\<rparr>"
    by (simp add: enabled_iff)
  have off: "\<not> interrupts_enabled 2 \<lparr>sr = 0x10\<rparr>"
    by (simp add: enabled_iff)
  have body_off: "\<not> interrupts_enabled 2
      (run_ops 2 [Mask_Get, Critical_Section [Mask_Set 0]]
         (snd (rtos_interrupt_mask_all 2 \<lparr>sr = 0x10\<rparr>)))"
    by (simp add: enabled_iff snd_mask_all rtos_interrupt_mask_all_def getsr_def clrsr_def
        rtos_interrupt_mask_set_def)
  show ?thesis
    using on off body_off
      critical_section_restores [of 2 "\<lparr>sr = 2\<rparr>" "[Unmask_All, Mask_Set 0]", OF disjI1 [OF on]]
      critical_section_restores [of 2 "\<lparr>sr = 0x10\<rparr>" "[Mask_Get, Critical_Section [Mask_Set 0]]",
        OF disjI2 [OF body_off]]
    by simp
qed

section \<open>Properties of the peripheral hub interface\<close>

text \<open>
  C9: the receive-complete mask is bit 0 alone and the transmit-complete mask is bit 1
  alone, so the two are disjoint. A receive completion sets the receive bit and leaves the
  transmit bit as it was: on a peripheral with nothing pending, the status read after a
  receive completion has the receive bit and not the transmit bit.
\<close>

theorem interrupt_status_bits:
  "(bit SOC_PERIPHERAL_ISR_DMA_RX_DONE_BM n \<longleftrightarrow> n = 0)
   \<and> (bit SOC_PERIPHERAL_ISR_DMA_TX_DONE_BM n \<longleftrightarrow> n = 1)
   \<and> SOC_PERIPHERAL_ISR_DMA_RX_DONE_BM AND SOC_PERIPHERAL_ISR_DMA_TX_DONE_BM = 0
   \<and> soc_peripheral_interrupt_status (hub_dma_rx_done device)
        AND SOC_PERIPHERAL_ISR_DMA_RX_DONE_BM = SOC_PERIPHERAL_ISR_DMA_RX_DONE_BM
   \<and> soc_peripheral_interrupt_status (hub_dma_rx_done device)
        AND SOC_PERIPHERAL_ISR_DMA_TX_DONE_BM
      = soc_peripheral_interrupt_status device AND SOC_PERIPHERAL_ISR_DMA_TX_DONE_BM
   \<and> soc_peripheral_interrupt_status (hub_dma_rx_done (new_peripheral c))
        AND SOC_PERIPHERAL_ISR_DMA_RX_DONE_BM \<noteq> 0
   \<and> soc_peripheral_interrupt_status (hub_dma_rx_done (new_peripheral c))
        AND SOC_PERIPHERAL_ISR_DMA_TX_DONE_BM = 0"
proof -
  have rx: "SOC_PERIPHERAL_ISR_DMA_RX_DONE_BM = push_bit 0 1"
    by (simp add: SOC_PERIPHERAL_ISR_DMA_RX_DONE_BM_def)
  have tx: "SOC_PERIPHERAL_ISR_DMA_TX_DONE_BM = push_bit 1 1"
    by (simp add: SOC_PERIPHERAL_ISR_DMA_TX_DONE_BM_def)
  have rx_bit: "bit SOC_PERIPHERAL_ISR_DMA_RX_DONE_BM n \<longleftrightarrow> n = 0"
    unfolding rx by (auto simp add: bit_simps)
  have tx_bit: "bit SOC_PERIPHERAL_ISR_DMA_TX_DONE_BM n \<longleftrightarrow> n = 1"
    unfolding tx by (auto simp add: bit_simps)
  have disjoint: "SOC_PERIPHERAL_ISR_DMA_RX_DONE_BM AND SOC_PERIPHERAL_ISR_DMA_TX_DONE_BM = 0"
    by (simp add: SOC_PERIPHERAL_ISR_DMA_RX_DONE_BM_def SOC_PERIPHERAL_ISR_DMA_TX_DONE_BM_def)
  have status: "soc_peripheral_interrupt_status (hub_dma_rx_done d)
      = interrupt_status d OR SOC_PERIPHERAL_ISR_DMA_RX_DONE_BM" for d
    by (simp add: soc_peripheral_interrupt_status_def hub_dma_rx_done_def)
  have keeps_tx: "soc_peripheral_interrupt_status (hub_dma_rx_done d)
        AND SOC_PERIPHERAL_ISR_DMA_TX_DONE_BM
      = soc_peripheral_interrupt_status d AND SOC_PERIPHERAL_ISR_DMA_TX_DONE_BM" for d
  proof -
    have "SOC_PERIPHERAL_ISR_DMA_TX_DONE_BM AND SOC_PERIPHERAL_ISR_DMA_RX_DONE_BM = 0"
      using disjoint by (simp only: and.commute)
    then show ?thesis
      unfolding status by (simp add: soc_peripheral_interrupt_status_def word_disjoint_set)
  qed
  have fresh: "soc_peripheral_interrupt_status (new_peripheral c) = 0"
    by (simp add: soc_peripheral_interrupt_status_def new_peripheral_def)
  have rx_nz: "SOC_PERIPHERAL_ISR_DMA_RX_DONE_BM \<noteq> 0"
    by (simp add: SOC_PERIPHERAL_ISR_DMA_RX_DONE_BM_def)
  show ?thesis
    using rx_bit tx_bit disjoint keeps_tx [of device] keeps_tx [of "new_peripheral c"] fresh rx_nz
    by (simp add: status word_set_then_read)
qed

text \<open>
  C4: \<^verbatim>\<open>soc_peripheral_rx_dma_xfer(c, buf, N)\<close> writes at most \<open>N\<close> bytes into the buffer
  and returns the transferred length, which is at most \<open>N\<close>: the bytes below the returned
  length are the oldest pending ones, every byte of the buffer from the returned length on
  is untouched, and what was not transferred stays pending. For \<open>N = 0\<close> it returns 0
  and writes nothing; with nothing pending it returns 0, an ordinary result.
\<close>

theorem rx_dma_xfer_bounded:
  assumes "soc_peripheral_rx_dma_xfer c data max_length = (len, data', c')"
  shows "unat len \<le> unat max_length
       \<and> unat len = min (length c) (unat max_length)
       \<and> (\<forall>i. unat len \<le> i \<longrightarrow> data' i = data i)
       \<and> (\<forall>i. unat max_length \<le> i \<longrightarrow> data' i = data i)
       \<and> (\<forall>i < unat len. data' i = c ! i)
       \<and> c = take (unat len) c @ c'
       \<and> (max_length = 0 \<longrightarrow> len = 0 \<and> data' = data \<and> c' = c)
       \<and> (c = [] \<longrightarrow> len = 0 \<and> data' = data)"
proof -
  define n where "n = min (length c) (unat max_length)"
  have n_le: "n \<le> unat max_length"
    by (simp add: n_def)
  have "unat max_length < 2 ^ 16"
    using unsigned_less [of max_length, where ?'a = nat] by simp
  then have n_small: "n < 2 ^ 16"
    using n_le by simp
  have len: "len = word_of_nat n" and data': "data' = (\<lambda>i. if i < n then take n c ! i else data i)"
    and c': "c' = drop n c"
    using assms unfolding soc_peripheral_rx_dma_xfer_def Let_def n_def [symmetric] by auto
  have unat_len: "unat len = n"
    unfolding len using n_small by (simp add: unat_of_nat)
  have zero: "max_length = 0 \<Longrightarrow> n = 0"
    by (simp add: n_def)
  have empty: "c = [] \<Longrightarrow> n = 0"
    by (simp add: n_def)
  have p1: "unat len \<le> unat max_length"
    unfolding unat_len by (rule n_le)
  have p2: "unat len = min (length c) (unat max_length)"
    unfolding unat_len by (rule n_def)
  have p3: "\<forall>i. unat len \<le> i \<longrightarrow> data' i = data i"
    unfolding unat_len by (simp add: data')
  have p4: "\<forall>i. unat max_length \<le> i \<longrightarrow> data' i = data i"
    using n_le by (simp add: data')
  have p5: "\<forall>i < unat len. data' i = c ! i"
    unfolding unat_len by (simp add: data')
  have p6: "c = take (unat len) c @ c'"
    unfolding unat_len by (simp add: c')
  have p7: "max_length = 0 \<longrightarrow> len = 0 \<and> data' = data \<and> c' = c"
    using zero by (simp add: len data' c')
  have p8: "c = [] \<longrightarrow> len = 0 \<and> data' = data"
    using empty by (simp add: len data')
  from p1 p2 p3 p4 p5 p6 p7 p8 show ?thesis by blast
qed

theorem rx_dma_xfer_bounded_witness:
  "soc_peripheral_rx_dma_xfer [7, 8, 9] (\<lambda>i. 0) 2
     = (2, (\<lambda>i. if i < 2 then [7, 8, 9] ! i else 0), [9])
   \<and> unat (2 :: 16 word) \<le> unat (2 :: 16 word)
   \<and> unat (2 :: 16 word) = min (length [7, 8, 9 :: 8 word]) (unat (2 :: 16 word))
   \<and> [7, 8, 9 :: 8 word] = take (unat (2 :: 16 word)) [7, 8, 9] @ [9]"
proof -
  have n: "min (length [7, 8, 9 :: 8 word]) (unat (2 :: 16 word)) = 2"
    by simp
  have run: "soc_peripheral_rx_dma_xfer [7, 8, 9] (\<lambda>i. 0) 2
      = (2, (\<lambda>i. if i < 2 then [7, 8, 9] ! i else 0), [9])"
    unfolding soc_peripheral_rx_dma_xfer_def Let_def n
    by (simp add: numeral_2_eq_2 fun_eq_iff less_Suc_eq)
  show ?thesis
    using run rx_dma_xfer_bounded [OF run] by blast
qed

text \<open>
  C5: with free capacity \<^verbatim>\<open>soc_peripheral_register\<close> returns a non-null handle that was
  not in use before, the record of that handle holds the channel triple, and the records
  of the handles already in use are unchanged; when the capacity of the table is
  exhausted it returns the null handle and leaves the table as it was.
\<close>

theorem register_fresh_or_null:
  "(length table < capacity \<longrightarrow>
      (\<exists>h. fst (soc_peripheral_register capacity c table) = Some h
          \<and> h \<notin> handles table
          \<and> handles (snd (soc_peripheral_register capacity c table)) = insert h (handles table)
          \<and> channels (snd (soc_peripheral_register capacity c table) ! h) = c
          \<and> (\<forall>h' \<in> handles table.
                snd (soc_peripheral_register capacity c table) ! h' = table ! h')))
   \<and> (capacity \<le> length table \<longrightarrow>
        soc_peripheral_register capacity c table = (None, table))"
proof -
  have "{0 ..< Suc (length table)} = insert (length table) {0 ..< length table}"
    by auto
  then show ?thesis
    by (simp add: soc_peripheral_register_def handles_def new_peripheral_def nth_append)
qed

theorem register_fresh_or_null_witness:
  "length [new_peripheral (1, 2, 3)] < BITSTREAM_GPIO_DEVICE_COUNT
   \<and> soc_peripheral_register BITSTREAM_GPIO_DEVICE_COUNT (4, 5, 6) [new_peripheral (1, 2, 3)]
       = (Some 1, [new_peripheral (1, 2, 3), new_peripheral (4, 5, 6)])
   \<and> BITSTREAM_GPIO_DEVICE_COUNT \<le> length [new_peripheral (1, 2, 3), new_peripheral (4, 5, 6)]
   \<and> soc_peripheral_register BITSTREAM_GPIO_DEVICE_COUNT (7, 8, 9)
         [new_peripheral (1, 2, 3), new_peripheral (4, 5, 6)]
       = (None, [new_peripheral (1, 2, 3), new_peripheral (4, 5, 6)])"
proof -
  have free: "length [new_peripheral (1, 2, 3)] < BITSTREAM_GPIO_DEVICE_COUNT"
    by (simp add: BITSTREAM_GPIO_DEVICE_COUNT_def)
  have full: "BITSTREAM_GPIO_DEVICE_COUNT
      \<le> length [new_peripheral (1, 2, 3), new_peripheral (4, 5, 6)]"
    by (simp add: BITSTREAM_GPIO_DEVICE_COUNT_def)
  show ?thesis
    using free full
      register_fresh_or_null [of "[new_peripheral (1, 2, 3)]" BITSTREAM_GPIO_DEVICE_COUNT
        "(4, 5, 6)"]
      register_fresh_or_null [of "[new_peripheral (1, 2, 3), new_peripheral (4, 5, 6)]"
        BITSTREAM_GPIO_DEVICE_COUNT "(7, 8, 9)"]
    by (simp add: soc_peripheral_register_def)
qed

end
